theory Spec2Isabelle
  imports Main
begin

section \<open>Banner carousel (src/components/Banner.tsx)\<close>

text \<open>
  The component state of \<open>Banner\<close> that the carousel uses: the \<open>useState\<close> cells
  \<open>currentIndex\<close>, \<open>prevIndex\<close>, \<open>isTransitioning\<close>, \<open>slideDirection\<close>, \<open>isPaused\<close> and
  \<open>showModal\<close>. The pending timers are part of the state: each entry of \<open>timers\<close> is a
  \<open>setTimeout\<close> callback with the number of milliseconds left, and \<open>autoplay\<close> is the
  time left until the auto-play \<open>setInterval\<close> runs next, \<open>None\<close> when no interval is
  set. Time is discrete, one \<open>tick\<close> per millisecond. The props \<open>movies.length\<close> and
  \<open>autoPlayInterval\<close> are the parameters \<open>len\<close> and \<open>ap\<close>.
  The source's \<open>'left' | 'right'\<close> is \<open>direction\<close>; the spec's forward is \<open>Right\<close>.
\<close>

datatype direction = Left | Right

datatype index_update = StepNext | StepPrev | StepTo int

datatype callback = ChangeIndex index_update | EndTransition

record banner =
  currentIndex :: int
  prevIndex :: int
  isTransitioning :: bool
  slideDirection :: direction
  isPaused :: bool
  showModal :: bool
  timers :: "(nat \<times> callback) list"
  autoplay :: "nat option"

text \<open>The initial values of the cells, with no timer set.\<close>

definition initial_banner :: banner where
  "initial_banner =
     \<lparr>currentIndex = 0, prevIndex = 0, isTransitioning = False, slideDirection = Right,
      isPaused = False, showModal = False, timers = [], autoplay = None\<rparr>"

text \<open>
  The slide-direction \<open>useEffect\<close> (lines 26-38). It is the only writer of
  \<open>slideDirection\<close> and a function of its dependencies alone, so running it after every
  state update gives the same state as running it when a dependency changed.
\<close>

definition direction_effect :: "nat \<Rightarrow> banner \<Rightarrow> banner" where
  "direction_effect len s =
     (if isTransitioning s then
        (if prevIndex s = int len - 1 \<and> currentIndex s = 0 then s\<lparr>slideDirection := Right\<rparr>
         else if prevIndex s = 0 \<and> currentIndex s = int len - 1 then s\<lparr>slideDirection := Left\<rparr>
         else s\<lparr>slideDirection := (if currentIndex s > prevIndex s then Right else Left)\<rparr>)
      else s)"

text \<open>
  The auto-scroll \<open>useEffect\<close> (lines 94-108), run after the update that took the state
  \<open>old\<close> to the state \<open>new\<close>. Its dependencies are \<open>isPaused\<close>, \<open>showModal\<close>,
  \<open>isTransitioning\<close> and, through \<open>nextSlide\<close>, \<open>currentIndex\<close> (the props do not change).
  When one of them changed, the cleanup clears the interval and the effect sets a new
  one if its condition holds.
\<close>

definition autoplay_effect :: "nat \<Rightarrow> nat \<Rightarrow> banner \<Rightarrow> banner \<Rightarrow> banner" where
  "autoplay_effect ap len old new =
     (if isPaused new = isPaused old \<and> showModal new = showModal old \<and>
         isTransitioning new = isTransitioning old \<and> currentIndex new = currentIndex old
      then new
      else new\<lparr>autoplay :=
                 (if \<not> isPaused new \<and> \<not> showModal new \<and> 1 < len \<and> \<not> isTransitioning new
                  then Some ap else None)\<rparr>)"

text \<open>The state once the effects of the first render have run.\<close>

definition mounted :: "nat \<Rightarrow> nat \<Rightarrow> banner" where
  "mounted ap len = initial_banner\<lparr>autoplay := (if 1 < len then Some ap else None)\<rparr>"

text \<open>The functional updates handed to \<open>setCurrentIndex\<close> inside the 200 ms callbacks.\<close>

fun apply_update :: "nat \<Rightarrow> index_update \<Rightarrow> int \<Rightarrow> int" where
  "apply_update len StepNext i = (if i = int len - 1 then 0 else i + 1)"
| "apply_update len StepPrev i = (if i = 0 then int len - 1 else i - 1)"
| "apply_update len (StepTo k) i = k"

text \<open>
  \<open>nextSlide\<close>, \<open>prevSlide\<close> and \<open>goToSlide\<close>: the synchronous part of each call. All
  three begin a transition only when none is in progress, so \<open>isTransitioning\<close> changes
  to true and the auto-scroll effect clears the interval without setting a new one.
\<close>

definition begin_transition :: "nat \<Rightarrow> index_update \<Rightarrow> banner \<Rightarrow> banner" where
  "begin_transition len u s =
     direction_effect len
       (s\<lparr>isTransitioning := True, prevIndex := currentIndex s,
          timers := timers s @ [(200, ChangeIndex u)], autoplay := None\<rparr>)"

definition nextSlide :: "nat \<Rightarrow> banner \<Rightarrow> banner" where
  "nextSlide len s = (if isTransitioning s then s else begin_transition len StepNext s)"

definition prevSlide :: "nat \<Rightarrow> banner \<Rightarrow> banner" where
  "prevSlide len s = (if isTransitioning s then s else begin_transition len StepPrev s)"

definition goToSlide :: "nat \<Rightarrow> int \<Rightarrow> banner \<Rightarrow> banner" where
  "goToSlide len index s =
     (if isTransitioning s \<or> index = currentIndex s then s
      else begin_transition len (StepTo index) s)"

text \<open>
  A timer callback runs: the outer one changes the index and schedules the inner one
  (300 ms), the inner one clears the transition flag.
\<close>

fun fire :: "nat \<Rightarrow> nat \<Rightarrow> callback \<Rightarrow> banner \<Rightarrow> banner" where
  "fire ap len (ChangeIndex u) s =
     autoplay_effect ap len s
       (direction_effect len
          (s\<lparr>currentIndex := apply_update len u (currentIndex s),
             timers := timers s @ [(300, EndTransition)]\<rparr>))"
| "fire ap len EndTransition s =
     autoplay_effect ap len s (direction_effect len (s\<lparr>isTransitioning := False\<rparr>))"

text \<open>
  The pause triggers (lines 131-155). \<open>hovering\<close> is the answer of
  \<open>document.querySelector('.group:hover')\<close>.
\<close>

definition handleMouseEnter :: "nat \<Rightarrow> nat \<Rightarrow> banner \<Rightarrow> banner" where
  "handleMouseEnter ap len s = autoplay_effect ap len s (s\<lparr>isPaused := True\<rparr>)"

definition handleMouseLeave :: "nat \<Rightarrow> nat \<Rightarrow> banner \<Rightarrow> banner" where
  "handleMouseLeave ap len s = autoplay_effect ap len s (s\<lparr>isPaused := False\<rparr>)"

definition handleInfoClick :: "nat \<Rightarrow> nat \<Rightarrow> banner \<Rightarrow> banner" where
  "handleInfoClick ap len s = autoplay_effect ap len s (s\<lparr>showModal := True, isPaused := True\<rparr>)"

definition handleCloseModal :: "nat \<Rightarrow> nat \<Rightarrow> bool \<Rightarrow> banner \<Rightarrow> banner" where
  "handleCloseModal ap len hovering s =
     autoplay_effect ap len s
       (if hovering then s\<lparr>showModal := False\<rparr> else s\<lparr>showModal := False, isPaused := False\<rparr>)"

text \<open>
  One millisecond passes. The timeouts that are due run in the order they were set;
  then the interval, if it is still set and due, starts over and calls \<open>nextSlide\<close>.
\<close>

definition tick :: "nat \<Rightarrow> nat \<Rightarrow> banner \<Rightarrow> banner" where
  "tick ap len s =
     (let due = filter (\<lambda>(r, cb). r \<le> 1) (timers s);
          later = filter (\<lambda>(r, cb). 1 < r) (timers s);
          s1 = fold (\<lambda>(r, cb). fire ap len cb) due
                 (s\<lparr>timers := map (\<lambda>(r, cb). (r - 1, cb)) later,
                    autoplay := map_option (\<lambda>r. r - 1) (autoplay s)\<rparr>)
      in if autoplay s1 = Some 0 then nextSlide len (s1\<lparr>autoplay := Some ap\<rparr>) else s1)"

definition elapse :: "nat \<Rightarrow> nat \<Rightarrow> nat \<Rightarrow> banner \<Rightarrow> banner" where
  "elapse ap len d s = (tick ap len ^^ d) s"

subsection \<open>Running the timers\<close>

lemma begin_transition_effects:
  "\<not> isTransitioning s \<Longrightarrow>
   begin_transition len u s =
     autoplay_effect ap len s
       (direction_effect len
          (s\<lparr>isTransitioning := True, prevIndex := currentIndex s,
             timers := timers s @ [(200, ChangeIndex u)]\<rparr>))"
  by (simp add: begin_transition_def autoplay_effect_def direction_effect_def)

lemma elapse_add: "elapse ap len (a + b) s = elapse ap len b (elapse ap len a s)"
  by (simp add: elapse_def add.commute [of a b] funpow_add)

lemma elapse_Suc: "elapse ap len (Suc d) s = elapse ap len d (tick ap len s)"
  by (simp add: elapse_def funpow_swap1)

lemma tick_idle: "timers s = [] \<Longrightarrow> autoplay s = None \<Longrightarrow> tick ap len s = s"
  by (simp add: tick_def)

lemma elapse_idle: "timers s = [] \<Longrightarrow> autoplay s = None \<Longrightarrow> elapse ap len d s = s"
  by (induction d) (simp_all add: elapse_def tick_idle)

lemma tick_waiting:
  "timers s = [] \<Longrightarrow> autoplay s = Some r \<Longrightarrow> 1 < r \<Longrightarrow>
   tick ap len s = s\<lparr>autoplay := Some (r - 1)\<rparr>"
  by (simp add: tick_def)

lemma elapse_waiting:
  "timers s = [] \<Longrightarrow> autoplay s = Some r \<Longrightarrow> d < r \<Longrightarrow>
   elapse ap len d s = s\<lparr>autoplay := Some (r - d)\<rparr>"
proof (induction d arbitrary: s r)
  case 0
  then show ?case by (cases s) (simp add: elapse_def)
next
  case (Suc d)
  have t: "tick ap len s = s\<lparr>autoplay := Some (r - 1)\<rparr>"
    using Suc.prems by (simp add: tick_waiting)
  have "elapse ap len d (s\<lparr>autoplay := Some (r - 1)\<rparr>) =
        s\<lparr>autoplay := Some (r - 1)\<rparr>\<lparr>autoplay := Some (r - 1 - d)\<rparr>"
    using Suc.prems by (intro Suc.IH) simp_all
  then show ?case by (simp add: elapse_Suc t)
qed

lemma autoplay_none_update: "autoplay s = None \<Longrightarrow> s\<lparr>timers := t, autoplay := None\<rparr> = s\<lparr>timers := t\<rparr>"
  by (cases s) simp

lemma elapse_single_Suc:
  "timers s = [(Suc n, cb)] \<Longrightarrow> autoplay s = None \<Longrightarrow>
   autoplay (fire ap len cb (s\<lparr>timers := []\<rparr>)) \<noteq> Some 0 \<Longrightarrow>
   elapse ap len (Suc n) s = fire ap len cb (s\<lparr>timers := []\<rparr>)"
proof (induction n arbitrary: s)
  case 0
  then show ?case by (simp add: elapse_def tick_def autoplay_none_update Let_def)
next
  case (Suc n)
  have step: "tick ap len s = s\<lparr>timers := [(Suc n, cb)]\<rparr>"
    using Suc.prems by (simp add: tick_def autoplay_none_update)
  have "elapse ap len (Suc (Suc n)) s = elapse ap len (Suc n) (tick ap len s)"
    by (rule elapse_Suc)
  also have "\<dots> = fire ap len cb (s\<lparr>timers := [(Suc n, cb)]\<rparr>\<lparr>timers := []\<rparr>)"
    unfolding step using Suc.prems by (intro Suc.IH) simp_all
  finally show ?case by simp
qed

lemma elapse_single:
  "timers s = [(n, cb)] \<Longrightarrow> 0 < n \<Longrightarrow> autoplay s = None \<Longrightarrow>
   autoplay (fire ap len cb (s\<lparr>timers := []\<rparr>)) \<noteq> Some 0 \<Longrightarrow>
   elapse ap len n s = fire ap len cb (s\<lparr>timers := []\<rparr>)"
  by (cases n) (simp_all add: elapse_single_Suc)

lemma direction_effect_fields:
  "timers (direction_effect len s) = timers s"
  "autoplay (direction_effect len s) = autoplay s"
  "currentIndex (direction_effect len s) = currentIndex s"
  "prevIndex (direction_effect len s) = prevIndex s"
  "isTransitioning (direction_effect len s) = isTransitioning s"
  "isPaused (direction_effect len s) = isPaused s"
  "showModal (direction_effect len s) = showModal s"
  by (simp_all add: direction_effect_def)

text \<open>The direction the effect writes, as a function of the two indices.\<close>

definition direction_of :: "nat \<Rightarrow> int \<Rightarrow> int \<Rightarrow> direction" where
  "direction_of len prev cur =
     (if prev = int len - 1 \<and> cur = 0 then Right
      else if prev = 0 \<and> cur = int len - 1 then Left
      else if cur > prev then Right else Left)"

lemma slideDirection_direction_effect:
  "slideDirection (direction_effect len s) =
     (if isTransitioning s then direction_of len (prevIndex s) (currentIndex s)
      else slideDirection s)"
  by (simp add: direction_effect_def direction_of_def)

lemma autoplay_effect_fields:
  "timers (autoplay_effect ap len old new) = timers new"
  "currentIndex (autoplay_effect ap len old new) = currentIndex new"
  "prevIndex (autoplay_effect ap len old new) = prevIndex new"
  "isTransitioning (autoplay_effect ap len old new) = isTransitioning new"
  "slideDirection (autoplay_effect ap len old new) = slideDirection new"
  "isPaused (autoplay_effect ap len old new) = isPaused new"
  "showModal (autoplay_effect ap len old new) = showModal new"
  by (simp_all add: autoplay_effect_def)

lemma autoplay_autoplay_effect:
  "autoplay (autoplay_effect ap len old new) =
     (if isPaused new = isPaused old \<and> showModal new = showModal old \<and>
         isTransitioning new = isTransitioning old \<and> currentIndex new = currentIndex old
      then autoplay new
      else if \<not> isPaused new \<and> \<not> showModal new \<and> 1 < len \<and> \<not> isTransitioning new
           then Some ap else None)"
  by (simp add: autoplay_effect_def)

text \<open>
  A whole transition from a state with no timeout pending: the 200 ms callback, then the
  300 ms one. After 500 ms no timeout is left and the interval has been set again if
  the carousel is neither paused nor covered by the modal and has more than one item.
\<close>

lemma transition_runs:
  assumes "timers s = []" and "0 < ap"
  shows "currentIndex (elapse ap len 500 (begin_transition len u s)) =
           apply_update len u (currentIndex s)"
    and "prevIndex (elapse ap len 500 (begin_transition len u s)) = currentIndex s"
    and "\<not> isTransitioning (elapse ap len 500 (begin_transition len u s))"
    and "slideDirection (elapse ap len 500 (begin_transition len u s)) =
           direction_of len (currentIndex s) (apply_update len u (currentIndex s))"
    and "timers (elapse ap len 500 (begin_transition len u s)) = []"
    and "autoplay (elapse ap len 500 (begin_transition len u s)) =
           (if \<not> isPaused s \<and> \<not> showModal s \<and> 1 < len then Some ap else None)"
proof -
  define b where "b = begin_transition len u s"
  define m where "m = fire ap len (ChangeIndex u) (b\<lparr>timers := []\<rparr>)"
  define e where "e = fire ap len EndTransition (m\<lparr>timers := []\<rparr>)"
  have b: "timers b = [(200, ChangeIndex u)]" "autoplay b = None" "isTransitioning b"
    "currentIndex b = currentIndex s" "prevIndex b = currentIndex s"
    "isPaused b = isPaused s" "showModal b = showModal s"
    using assms(1) by (simp_all add: b_def begin_transition_def direction_effect_fields)
  have m: "timers m = [(300, EndTransition)]" "autoplay m = None" "isTransitioning m"
    "currentIndex m = apply_update len u (currentIndex s)" "prevIndex m = currentIndex s"
    "isPaused m = isPaused s" "showModal m = showModal s"
    using b by (simp_all add: m_def autoplay_effect_fields autoplay_autoplay_effect
        direction_effect_fields)
  have md: "slideDirection m =
           direction_of len (currentIndex s) (apply_update len u (currentIndex s))"
    using b by (simp add: m_def autoplay_effect_fields slideDirection_direction_effect)
  have e: "timers e = []" "\<not> isTransitioning e"
    "currentIndex e = apply_update len u (currentIndex s)" "prevIndex e = currentIndex s"
    "slideDirection e = slideDirection m"
    "autoplay e = (if \<not> isPaused s \<and> \<not> showModal s \<and> 1 < len then Some ap else None)"
    using m by (simp_all add: e_def autoplay_effect_fields autoplay_autoplay_effect
        direction_effect_fields slideDirection_direction_effect)
  have "autoplay m \<noteq> Some 0" using m(2) by simp
  then have c1: "autoplay (fire ap len (ChangeIndex u) (b\<lparr>timers := []\<rparr>)) \<noteq> Some 0"
    unfolding m_def .
  have e1: "elapse ap len 200 b = m"
    unfolding m_def by (rule elapse_single [OF b(1) zero_less_numeral b(2) c1])
  have "autoplay e \<noteq> Some 0" using e(6) assms(2) by simp
  then have c2: "autoplay (fire ap len EndTransition (m\<lparr>timers := []\<rparr>)) \<noteq> Some 0"
    unfolding e_def .
  have e2: "elapse ap len 300 m = e"
    unfolding e_def by (rule elapse_single [OF m(1) zero_less_numeral m(2) c2])
  have "elapse ap len (200 + 300) b = e"
    by (simp only: elapse_add e1 e2)
  then have run: "elapse ap len 500 (begin_transition len u s) = e"
    by (simp add: b_def)
  show "currentIndex (elapse ap len 500 (begin_transition len u s)) =
           apply_update len u (currentIndex s)"
    and "prevIndex (elapse ap len 500 (begin_transition len u s)) = currentIndex s"
    and "\<not> isTransitioning (elapse ap len 500 (begin_transition len u s))"
    and "slideDirection (elapse ap len 500 (begin_transition len u s)) =
           direction_of len (currentIndex s) (apply_update len u (currentIndex s))"
    and "timers (elapse ap len 500 (begin_transition len u s)) = []"
    and "autoplay (elapse ap len 500 (begin_transition len u s)) =
           (if \<not> isPaused s \<and> \<not> showModal s \<and> 1 < len then Some ap else None)"
    unfolding run using e md by simp_all
qed

text \<open>
  Until the interval runs again nothing more happens: for \<open>500 \<le> d < 500 + ap\<close> the
  cells are those of the state at 500 ms.
\<close>

lemma transition_settled:
  assumes "timers s = []" and "0 < ap" and "500 \<le> d" and "d < 500 + ap"
  shows "currentIndex (elapse ap len d (begin_transition len u s)) =
           apply_update len u (currentIndex s)"
    and "\<not> isTransitioning (elapse ap len d (begin_transition len u s))"
    and "slideDirection (elapse ap len d (begin_transition len u s)) =
           direction_of len (currentIndex s) (apply_update len u (currentIndex s))"
proof -
  define e where "e = elapse ap len 500 (begin_transition len u s)"
  note r = transition_runs [OF assms(1,2), of len u, folded e_def]
  have "d = 500 + (d - 500)" using assms(3) by simp
  then have split: "elapse ap len d (begin_transition len u s) = elapse ap len (d - 500) e"
    unfolding e_def by (metis elapse_add)
  have rest: "elapse ap len (d - 500) e = e \<or>
        (\<exists>a. elapse ap len (d - 500) e = e\<lparr>autoplay := a\<rparr>)"
  proof (cases "autoplay e")
    case None
    then show ?thesis using r(5) by (simp add: elapse_idle)
  next
    case (Some x)
    then have "x = ap" using r(6) by (simp split: if_splits)
    then have "d - 500 < x" using assms(3,4) by simp
    with r(5) Some have "elapse ap len (d - 500) e = e\<lparr>autoplay := Some (x - (d - 500))\<rparr>"
      by (rule elapse_waiting)
    then show ?thesis by blast
  qed
  show "currentIndex (elapse ap len d (begin_transition len u s)) =
           apply_update len u (currentIndex s)"
    and "\<not> isTransitioning (elapse ap len d (begin_transition len u s))"
    and "slideDirection (elapse ap len d (begin_transition len u s)) =
           direction_of len (currentIndex s) (apply_update len u (currentIndex s))"
    unfolding split using rest r by auto
qed

text \<open>The interval at work: when it is due and nothing else is pending, it calls \<open>nextSlide\<close>.\<close>

lemma autoplay_fires:
  assumes "timers s = []" and "autoplay s = Some r" and "0 < r" and "\<not> isTransitioning s"
  shows "elapse ap len r s = begin_transition len StepNext s"
proof -
  obtain k where k: "r = Suc k" using assms(3) by (cases r) auto
  have w: "elapse ap len k s = s\<lparr>autoplay := Some (r - k)\<rparr>"
    using assms(1,2) k by (intro elapse_waiting) simp_all
  have "elapse ap len r s = tick ap len (elapse ap len k s)"
    by (simp add: k elapse_def)
  also have "\<dots> = nextSlide len (s\<lparr>timers := [], autoplay := Some ap\<rparr>)"
    using assms(1) by (simp add: w k tick_def)
  also have "\<dots> = nextSlide len (s\<lparr>autoplay := Some ap\<rparr>)"
  proof -
    have "s\<lparr>timers := [], autoplay := Some ap\<rparr> = s\<lparr>autoplay := Some ap\<rparr>"
      using assms(1) by (cases s) simp
    then show ?thesis by (simp only:)
  qed
  also have "\<dots> = begin_transition len StepNext s"
    using assms(4) by (simp add: nextSlide_def begin_transition_def)
  finally show ?thesis .
qed

subsection \<open>Advance, retreat and jump\<close>

text \<open>
  Where the carousel does what the spec says of advance and retreat. From a carousel at rest at index \<open>i\<close> of a
  banner set of length \<open>len > 0\<close>, a call of \<open>nextSlide\<close> that the guard lets through
  ends, once both timeouts have run and before the interval runs again, at index
  \<open>(i + 1) mod len\<close> with the transition flag cleared; the slide direction is forward
  (\<open>Right\<close>) unless \<open>len = 2\<close> and \<open>i = 0\<close>. A call of \<open>prevSlide\<close> from index 0 ends at
  index \<open>len - 1\<close>, with direction backward (\<open>Left\<close>) when \<open>len \<ge> 2\<close>; with one item the
  component offers no way to call it.
\<close>

lemma advance_retreat_elsewhere:
  assumes "timers s = []" and "\<not> isTransitioning s" and "currentIndex s = i"
    and "0 \<le> i" and "i < int len" and "0 < ap" and "500 \<le> d" and "d < 500 + ap"
  shows "currentIndex (elapse ap len d (nextSlide len s)) = (i + 1) mod int len \<and>
         \<not> isTransitioning (elapse ap len d (nextSlide len s)) \<and>
         (\<not> (len = 2 \<and> i = 0) \<longrightarrow> slideDirection (elapse ap len d (nextSlide len s)) = Right) \<and>
         (i = 0 \<longrightarrow> currentIndex (elapse ap len d (prevSlide len s)) = int len - 1 \<and>
            (2 \<le> len \<longrightarrow> slideDirection (elapse ap len d (prevSlide len s)) = Left))"
proof -
  note adv = transition_settled [OF assms(1,6,7,8), of len StepNext]
  note ret = transition_settled [OF assms(1,6,7,8), of len StepPrev]
  have n: "nextSlide len s = begin_transition len StepNext s"
    and p: "prevSlide len s = begin_transition len StepPrev s"
    using assms(2) by (simp_all add: nextSlide_def prevSlide_def)
  have idx: "apply_update len StepNext i = (i + 1) mod int len"
  proof (cases "i = int len - 1")
    case True
    then show ?thesis by simp
  next
    case False
    then have "i + 1 < int len" using assms(5) by simp
    then have "(i + 1) mod int len = i + 1" using assms(4) by simp
    then show ?thesis using False by simp
  qed
  have fwd: "direction_of len i (apply_update len StepNext i) = Right" if "\<not> (len = 2 \<and> i = 0)"
    using that assms(4,5) by (auto simp add: direction_of_def)
  have bwd: "direction_of len 0 (apply_update len StepPrev 0) = Left" if "2 \<le> len"
    using that by (auto simp add: direction_of_def)
  show ?thesis
    unfolding n p using adv ret idx fwd bwd assms(3) by auto
qed

text \<open>
  C1. The claim has every advance that the guard lets through end with direction
  forward. With a banner set of two items the code reports the advance from index 0 to
  index 1 as backward (\<open>Left\<close>): the index is the one the claim gives, \<open>(0 + 1) mod 2\<close>,
  but \<open>prevIndex = 0\<close> and \<open>currentIndex = len - 1\<close> is the effect's test for the wrap from
  the first item back to the last. This holds from every state at rest at index 0, at
  every moment from the end of the transition until the interval runs again.
\<close>

theorem two_banners_advance:
  assumes "timers s = []" and "\<not> isTransitioning s" and "currentIndex s = 0"
    and "0 < ap" and "500 \<le> d" and "d < 500 + ap"
  shows "currentIndex (elapse ap 2 d (nextSlide 2 s)) = 1 \<and>
         \<not> isTransitioning (elapse ap 2 d (nextSlide 2 s)) \<and>
         slideDirection (elapse ap 2 d (nextSlide 2 s)) = Left"
proof -
  note r = transition_settled [OF assms(1,4,5,6), of 2 StepNext]
  have n: "nextSlide 2 s = begin_transition 2 StepNext s"
    using assms(2) by (simp add: nextSlide_def)
  show ?thesis
    unfolding n using r assms(3) by (simp add: direction_of_def)
qed

theorem two_banners_advance_witness:
  "currentIndex (elapse 3000 2 500 (nextSlide 2 (mounted 3000 2))) = 1 \<and>
   slideDirection (elapse 3000 2 500 (nextSlide 2 (mounted 3000 2))) = Left"
  using two_banners_advance [of "mounted 3000 2" 3000 500]
  by (simp add: mounted_def initial_banner_def)

text \<open>
  C4. \<open>goToSlide index\<close> called while a transition is in progress, or with the current
  index, returns the state as it was: no field changes and no timer is set.
\<close>

theorem goToSlide_noop:
  "isTransitioning s \<or> index = currentIndex s \<Longrightarrow> goToSlide len index s = s"
  by (simp add: goToSlide_def)

theorem goToSlide_noop_witness:
  "goToSlide 5 3 (nextSlide 5 initial_banner) = nextSlide 5 initial_banner \<and>
   isTransitioning (nextSlide 5 initial_banner) \<and>
   goToSlide 5 0 initial_banner = initial_banner \<and> currentIndex initial_banner = 0"
proof -
  have t: "isTransitioning (nextSlide 5 initial_banner)"
    by (simp add: nextSlide_def begin_transition_def direction_effect_fields initial_banner_def)
  have c: "currentIndex initial_banner = 0" by (simp add: initial_banner_def)
  show ?thesis
    using goToSlide_noop [of "nextSlide 5 initial_banner" 3 5]
      goToSlide_noop [of initial_banner 0 5] t c by simp
qed

section \<open>Catalog objects\<close>

text \<open>
  The objects the components receive are JSON objects of the catalog API (\<open>Movie\<close>,
  \<open>SearchResult\<close> and the \<open>any\<close> of the details modal). A field is absent
  (\<open>undefined\<close>), \<open>null\<close> or a value. The record has the fields the components read.
  Identifiers, season numbers and counts are natural numbers; titles, paths and
  identifiers of other catalogs are strings of characters.
\<close>

datatype 'a jsval = Undefined | Null | Val 'a

datatype external_ids = ExternalIds (ext_imdb_id: "string jsval")

record season =
  season_number :: nat
  episode_count :: "nat jsval"

record movie =
  tmdb_id :: "nat jsval"
  title :: "string jsval"
  name :: "string jsval"
  poster_path :: "string jsval"
  backdrop_path :: "string jsval"
  media_type :: "string jsval"
  number_of_seasons :: "nat jsval"
  first_air_date :: "string jsval"
  seasons :: "season list jsval"
  external_ids :: "external_ids jsval"
  imdb_id :: "string jsval"

text \<open>The object with no field set, from which the examples are built.\<close>

definition no_fields :: movie where
  "no_fields =
     \<lparr>tmdb_id = Undefined, title = Undefined, name = Undefined, poster_path = Undefined,
      backdrop_path = Undefined, media_type = Undefined, number_of_seasons = Undefined,
      first_air_date = Undefined, seasons = Undefined, external_ids = Undefined,
      imdb_id = Undefined\<rparr>"

text \<open>JavaScript truthiness of a string field and of a number field.\<close>

fun truthy_str :: "string jsval \<Rightarrow> bool" where
  "truthy_str (Val s) = (s \<noteq> [])"
| "truthy_str _ = False"

fun truthy_num :: "nat jsval \<Rightarrow> bool" where
  "truthy_num (Val n) = (n \<noteq> 0)"
| "truthy_num _ = False"

text \<open>\<open>a || b\<close> on string fields.\<close>

definition or_str :: "string jsval \<Rightarrow> string jsval \<Rightarrow> string jsval" where
  "or_str a b = (if truthy_str a then a else b)"

section \<open>Search overlay (Navbar, second part of src/components/MovieRow.tsx)\<close>

text \<open>
  The query is a JavaScript string: a list of UTF-16 code units. \<open>trim\<close> removes the
  ECMAScript white space and line terminators from both ends, and \<open>.length\<close> counts
  code units.
\<close>

type_synonym jsstring = "nat list"

definition js :: "string \<Rightarrow> jsstring" where
  "js cs = map of_char cs"

definition isWhiteSpace :: "nat \<Rightarrow> bool" where
  "isWhiteSpace c =
     (c \<in> set [9, 10, 11, 12, 13, 32, 160, 5760, 8232, 8233, 8239, 8287, 12288, 65279]
      \<or> (8192 \<le> c \<and> c \<le> 8202))"

definition trim :: "jsstring \<Rightarrow> jsstring" where
  "trim q = rev (dropWhile isWhiteSpace (rev (dropWhile isWhiteSpace q)))"

text \<open>
  The \<open>useState\<close> cells of \<open>Navbar\<close>, the pending debounce timer (milliseconds left and
  the query its closure holds) and the log of \<open>searchTMDB\<close> calls issued, oldest first.
\<close>

record nav =
  showSearch :: bool
  searchQuery :: jsstring
  searchResults :: "movie list"
  isSearching :: bool
  navSelectedMovie :: "movie option"
  searchTimeout :: "(nat \<times> jsstring) option"
  searchCalls :: "jsstring list"

text \<open>
  \<open>setSearchQuery\<close> together with the debounce \<open>useEffect\<close> (lines 304-323), whose only
  dependency is \<open>searchQuery\<close>: when the query changes, the cleanup clears the pending
  timer and the effect sets a new one of 500 ms, whatever the query is. Setting the
  query to the value it has does not re-run the effect.
\<close>

definition setSearchQuery :: "jsstring \<Rightarrow> nav \<Rightarrow> nav" where
  "setSearchQuery q s =
     (if q = searchQuery s then s else s\<lparr>searchQuery := q, searchTimeout := Some (500, q)\<rparr>)"

text \<open>The state after mount: the effect has run once, for the empty query.\<close>

definition initial_nav :: nav where
  "initial_nav =
     \<lparr>showSearch = False, searchQuery = [], searchResults = [], isSearching = False,
      navSelectedMovie = None, searchTimeout = Some (500, []), searchCalls = []\<rparr>"

text \<open>The input's \<open>onChange\<close>: a keystroke that leaves the text \<open>q\<close> in the input.\<close>

definition onChange :: "jsstring \<Rightarrow> nav \<Rightarrow> nav" where
  "onChange q s = setSearchQuery q s"

text \<open>The timer callback, up to its \<open>await\<close>; and what follows the \<open>await\<close>.\<close>

definition search_fires :: "jsstring \<Rightarrow> nav \<Rightarrow> nav" where
  "search_fires q s =
     (if 2 < length (trim q) then s\<lparr>isSearching := True, searchCalls := searchCalls s @ [q]\<rparr>
      else s\<lparr>searchResults := []\<rparr>)"

definition search_settles :: "movie list option \<Rightarrow> nav \<Rightarrow> nav" where
  "search_settles outcome s =
     (case outcome of
        Some results \<Rightarrow> s\<lparr>searchResults := results, isSearching := False\<rparr>
      | None \<Rightarrow> s\<lparr>searchResults := [], isSearching := False\<rparr>)"

text \<open>\<open>d\<close> milliseconds pass with no event: the timer runs when it is due.\<close>

definition nav_elapse :: "nat \<Rightarrow> nav \<Rightarrow> nav" where
  "nav_elapse d s =
     (case searchTimeout s of
        None \<Rightarrow> s
      | Some (r, q) \<Rightarrow>
          if r \<le> d then search_fires q (s\<lparr>searchTimeout := None\<rparr>)
          else s\<lparr>searchTimeout := Some (r - d, q)\<rparr>)"

text \<open>\<open>handleSearch\<close>, the form's submit handler.\<close>

definition handleSearch :: "nav \<Rightarrow> nav" where
  "handleSearch s =
     (if 2 < length (trim (searchQuery s))
      then s\<lparr>isSearching := True, searchCalls := searchCalls s @ [searchQuery s]\<rparr>
      else s)"

text \<open>The results panel under the input (lines 466-510).\<close>

datatype panel = Hidden | Searching | Results "movie list" | NoResults

definition results_panel :: "nav \<Rightarrow> panel" where
  "results_panel s =
     (if showSearch s \<and> 2 < length (trim (searchQuery s)) then
        (if isSearching s then Searching
         else if 0 < length (searchResults s) then Results (searchResults s)
         else NoResults)
      else Hidden)"

text \<open>
  A run of keystrokes: each entry is the time since the event before it and the text
  the keystroke leaves in the input.
\<close>

fun typing :: "(nat \<times> jsstring) list \<Rightarrow> nav \<Rightarrow> nav" where
  "typing [] s = s"
| "typing ((gap, q) # ks) s = typing ks (onChange q (nav_elapse gap s))"

text \<open>
  Rapid typing after the text \<open>prev\<close>: every keystroke changes the text and comes less
  than 500 ms after the one before.
\<close>

fun rapid :: "jsstring \<Rightarrow> (nat \<times> jsstring) list \<Rightarrow> bool" where
  "rapid prev [] = True"
| "rapid prev ((gap, q) # ks) = (gap < 500 \<and> q \<noteq> prev \<and> rapid q ks)"

definition final_query :: "jsstring \<Rightarrow> (nat \<times> jsstring) list \<Rightarrow> jsstring" where
  "final_query q0 ks = last (q0 # map snd ks)"

subsection \<open>Debounce\<close>

text \<open>
  C2 (as the code has it). A keystroke that changes the query replaces the pending
  debounce timer by a fresh one of 500 ms, whatever the length of the query, and at that
  moment neither issues a call nor touches the result list. Before the 500 ms are over
  nothing happens. When the timer runs, a query whose trimmed length exceeds 2 is
  searched for; for a shorter one no call is made and the result list is cleared then.
\<close>

theorem keystroke_debounce:
  assumes "q \<noteq> searchQuery s"
  shows "searchTimeout (onChange q s) = Some (500, q) \<and>
         searchResults (onChange q s) = searchResults s \<and>
         searchCalls (onChange q s) = searchCalls s \<and>
         (d < 500 \<longrightarrow>
            searchCalls (nav_elapse d (onChange q s)) = searchCalls s \<and>
            searchResults (nav_elapse d (onChange q s)) = searchResults s) \<and>
         (500 \<le> d \<longrightarrow>
            (if 2 < length (trim q)
             then searchCalls (nav_elapse d (onChange q s)) = searchCalls s @ [q] \<and>
                  searchResults (nav_elapse d (onChange q s)) = searchResults s
             else searchCalls (nav_elapse d (onChange q s)) = searchCalls s \<and>
                  searchResults (nav_elapse d (onChange q s)) = []))"
proof -
  have k: "onChange q s = s\<lparr>searchQuery := q, searchTimeout := Some (500, q)\<rparr>"
    using assms by (simp add: onChange_def setSearchQuery_def)
  have early: "nav_elapse d (onChange q s) =
      s\<lparr>searchQuery := q, searchTimeout := Some (500 - d, q)\<rparr>" if "d < 500"
    using that by (simp add: k nav_elapse_def)
  have late: "nav_elapse d (onChange q s) =
      search_fires q (s\<lparr>searchQuery := q, searchTimeout := None\<rparr>)" if "500 \<le> d"
    using that by (simp add: k nav_elapse_def)
  show ?thesis
    using early late by (simp add: k search_fires_def)
qed

theorem keystroke_debounce_witness:
  "searchTimeout (onChange (js ''batman'') initial_nav) = Some (500, js ''batman'') \<and>
   searchCalls (nav_elapse 499 (onChange (js ''batman'') initial_nav)) = [] \<and>
   searchCalls (nav_elapse 500 (onChange (js ''batman'') initial_nav)) = [js ''batman''] \<and>
   searchCalls (nav_elapse 500 (onChange (js ''ba'') initial_nav)) = [] \<and>
   searchResults (nav_elapse 500 (onChange (js ''ba'') initial_nav)) = []"
  using keystroke_debounce [of "js ''batman''" initial_nav 499]
    keystroke_debounce [of "js ''batman''" initial_nav 500]
    keystroke_debounce [of "js ''ba''" initial_nav 500]
  by (simp add: js_def initial_nav_def trim_def isWhiteSpace_def)

text \<open>Example: the overlay after a search for \<open>bat\<close> has delivered one result.\<close>

definition found_bat :: nav where
  "found_bat =
     search_settles (Some [no_fields\<lparr>tmdb_id := Val 268, title := Val ''Batman''\<rparr>])
       (nav_elapse 500 (onChange (js ''bat'') (initial_nav\<lparr>showSearch := True\<rparr>)))"

text \<open>
  The claim as the spec states it has the short query clear the result list at the
  keystroke. In the code the list is cleared by the timer: after a search for
  \<open>bat\<close> has delivered a result, the keystroke that leaves \<open>ba\<close> keeps the list, and
  retyping the \<open>t\<close> 200 ms later shows the kept result again.
\<close>

theorem keystroke_clear_counterexample:
  "length (trim (js ''ba'')) \<le> 2 \<and>
   searchResults found_bat = [no_fields\<lparr>tmdb_id := Val 268, title := Val ''Batman''\<rparr>] \<and>
   searchResults (onChange (js ''ba'') found_bat) =
     [no_fields\<lparr>tmdb_id := Val 268, title := Val ''Batman''\<rparr>] \<and>
   results_panel (onChange (js ''bat'') (nav_elapse 200 (onChange (js ''ba'') found_bat))) =
     Results [no_fields\<lparr>tmdb_id := Val 268, title := Val ''Batman''\<rparr>]"
  by (simp add: found_bat_def js_def initial_nav_def trim_def isWhiteSpace_def nav_elapse_def
      onChange_def setSearchQuery_def search_fires_def search_settles_def results_panel_def)

lemma typing_pending:
  "searchTimeout t = Some (500, q0) \<Longrightarrow> searchQuery t = q0 \<Longrightarrow> rapid q0 ks \<Longrightarrow> 500 \<le> d \<Longrightarrow>
   searchCalls (nav_elapse d (typing ks t)) =
     searchCalls t @ (if 2 < length (trim (final_query q0 ks)) then [final_query q0 ks] else [])"
proof (induction ks arbitrary: t q0)
  case Nil
  then show ?case
    by (simp add: nav_elapse_def search_fires_def final_query_def)
next
  case (Cons k ks)
  obtain gap q where k: "k = (gap, q)" by (cases k)
  from Cons.prems(3) k have gap: "gap < 500" and q: "q \<noteq> q0" and r: "rapid q ks" by simp_all
  define t' where "t' = onChange q (nav_elapse gap t)"
  have w: "nav_elapse gap t = t\<lparr>searchTimeout := Some (500 - gap, q0)\<rparr>"
    using Cons.prems(1) gap by (simp add: nav_elapse_def)
  have t': "searchTimeout t' = Some (500, q)" "searchQuery t' = q" "searchCalls t' = searchCalls t"
    using q Cons.prems(2) by (simp_all add: t'_def w onChange_def setSearchQuery_def)
  have "searchCalls (nav_elapse d (typing ks t')) =
     searchCalls t' @ (if 2 < length (trim (final_query q ks)) then [final_query q ks] else [])"
    using t'(1,2) r Cons.prems(4) by (rule Cons.IH)
  moreover have "final_query q0 (k # ks) = final_query q ks"
    by (simp add: final_query_def k)
  ultimately show ?case using t'(3) by (simp add: k flip: t'_def)
qed

text \<open>
  C3 (as the code has it). Rapid typing that begins with a keystroke changing the query
  of any state and ends with 500 ms or more of silence issues, beyond the calls issued
  before, one call carrying the final text when its trimmed length exceeds 2, and none
  otherwise. No text that was typed over is searched for.
\<close>

theorem debounce_one_call:
  assumes "q0 \<noteq> searchQuery s" and "rapid q0 ks" and "500 \<le> d"
  shows "searchCalls (nav_elapse d (typing ks (onChange q0 s))) =
     searchCalls s @ (if 2 < length (trim (final_query q0 ks)) then [final_query q0 ks] else [])"
proof -
  have "searchTimeout (onChange q0 s) = Some (500, q0)" "searchQuery (onChange q0 s) = q0"
    "searchCalls (onChange q0 s) = searchCalls s"
    using assms(1) by (simp_all add: onChange_def setSearchQuery_def)
  then show ?thesis using typing_pending [OF _ _ assms(2,3)] by metis
qed

theorem debounce_one_call_witness:
  "searchCalls (nav_elapse 500
     (typing [(100, js ''ba''), (150, js ''bat''), (90, js ''batm''), (120, js ''batma''),
              (80, js ''batman'')] (onChange (js ''b'') initial_nav))) = [js ''batman''] \<and>
   searchCalls (nav_elapse 500 (typing [(300, js ''ba'')] (onChange (js ''bat'') initial_nav))) = []"
  using debounce_one_call [of "js ''b''" initial_nav
      "[(100, js ''ba''), (150, js ''bat''), (90, js ''batm''), (120, js ''batma''),
        (80, js ''batman'')]" 500]
    debounce_one_call [of "js ''bat''" initial_nav "[(300, js ''ba'')]" 500]
  by (simp add: js_def initial_nav_def final_query_def trim_def isWhiteSpace_def)

text \<open>
  The claim as the spec states it holds for every sequence of keystrokes. When a pause
  of 500 ms or more separates two keystrokes the timer of the first runs: two calls are
  issued, the first of them for a text that was typed over.
\<close>

theorem debounce_counterexample:
  "searchCalls (nav_elapse 500
     (typing [(0, js ''bat''), (600, js ''batm'')] initial_nav)) = [js ''bat'', js ''batm'']"
  by (simp add: js_def initial_nav_def trim_def isWhiteSpace_def nav_elapse_def onChange_def
      setSearchQuery_def search_fires_def)

section \<open>Category rows (MovieRow, first part of src/components/MovieRow.tsx)\<close>

text \<open>
  What a row renders: nothing (\<open>None\<close>), or its heading and, once the row has come
  near the viewport (\<open>isRowVisible\<close>), one card per entry of \<open>validMovies\<close>. A card is
  the \<open>movie\<close> and \<open>mediaType\<close> props of \<open>MovieCard\<close>.
\<close>

datatype row_type = RowMovie | RowTv

fun row_type_string :: "row_type \<Rightarrow> string" where
  "row_type_string RowMovie = ''movie''"
| "row_type_string RowTv = ''tv''"

datatype card = Card (card_movie: movie) (card_mediaType: string)

record row_view =
  heading :: string
  cards :: "card list option"

text \<open>\<open>movie.media_type || rowType || (movie.name && !movie.title ? 'tv' : 'movie')\<close>\<close>

definition card_media_type :: "row_type option \<Rightarrow> movie \<Rightarrow> string" where
  "card_media_type rowType m =
     (case media_type m of
        Val t \<Rightarrow>
          (if t \<noteq> [] then t
           else (case rowType of
                   Some r \<Rightarrow> row_type_string r
                 | None \<Rightarrow> if truthy_str (name m) \<and> \<not> truthy_str (title m) then ''tv'' else ''movie''))
      | _ \<Rightarrow>
          (case rowType of
             Some r \<Rightarrow> row_type_string r
           | None \<Rightarrow> if truthy_str (name m) \<and> \<not> truthy_str (title m) then ''tv'' else ''movie''))"

definition MovieRow :: "string \<Rightarrow> movie list jsval \<Rightarrow> row_type option \<Rightarrow> bool \<Rightarrow> row_view option" where
  "MovieRow ttl movies rowType isRowVisible =
     (case movies of
        Null \<Rightarrow> None
      | Undefined \<Rightarrow> None
      | Val ms \<Rightarrow>
          if length ms = 0 then None
          else
            (let validMovies = filter (\<lambda>m. truthy_str (poster_path m)) ms in
             if length validMovies = 0 then None
             else Some \<lparr>heading = ttl,
                        cards = (if isRowVisible
                                 then Some (map (\<lambda>m. Card m (card_media_type rowType m)) validMovies)
                                 else None)\<rparr>))"

section \<open>Root composition (src/App.tsx)\<close>

text \<open>
  A promise is modelled by how it settles. \<open>fetchMovies\<close> and \<open>fetchMovieDetails\<close> (of
  \<open>lib/tmdb\<close>) and the browser's \<open>fetch\<close> are the environment: parameters giving how the
  promise of each call settles. The reason of a rejection is only logged, and is left out.
\<close>

datatype 'a promise = Rejected | Fulfilled 'a

datatype response = Response (ok: bool) (json: "movie jsval promise")

record app =
  popularMovies :: "movie list"
  topRatedMovies :: "movie list"
  upcomingMovies :: "movie list"
  nowPlayingMovies :: "movie list"
  popularTV :: "movie list"
  topRatedTV :: "movie list"
  trendingMovies :: "movie list"
  trendingTV :: "movie list"
  selectedMovie :: "movie option"
  isLoading :: bool
  error :: "string option"

definition initial_app :: app where
  "initial_app =
     \<lparr>popularMovies = [], topRatedMovies = [], upcomingMovies = [], nowPlayingMovies = [],
      popularTV = [], topRatedTV = [], trendingMovies = [], trendingTV = [],
      selectedMovie = None, isLoading = True, error = None\<rparr>"

text \<open>\<open>Promise.all\<close>: fulfilled with all the values when every promise is, rejected otherwise.\<close>

fun promise_all :: "'a promise list \<Rightarrow> 'a list promise" where
  "promise_all [] = Fulfilled []"
| "promise_all (p # ps) =
     (case p of
        Rejected \<Rightarrow> Rejected
      | Fulfilled v \<Rightarrow>
          (case promise_all ps of Rejected \<Rightarrow> Rejected | Fulfilled vs \<Rightarrow> Fulfilled (v # vs)))"

definition endpoints :: "string list" where
  "endpoints =
     [''/movie/popular'', ''/movie/top_rated'', ''/movie/upcoming'', ''/movie/now_playing'',
      ''/tv/popular'', ''/tv/top_rated'', ''/trending/movie/week'', ''/trending/tv/week'']"

text \<open>\<open>x || []\<close> on a fetched list.\<close>

fun or_empty :: "movie list jsval \<Rightarrow> movie list" where
  "or_empty (Val ms) = ms"
| "or_empty _ = []"

definition load_error :: string where
  "load_error = ''Failed to load content. Please try again later.''"

text \<open>\<open>fetchData\<close> (lines 23-66), from its first statement to the end of its \<open>finally\<close>.\<close>

definition fetchData :: "(string \<Rightarrow> movie list jsval promise) \<Rightarrow> app \<Rightarrow> app" where
  "fetchData fetchMovies s =
     (let s1 = s\<lparr>isLoading := True, error := None\<rparr>;
          s2 = (case promise_all (map fetchMovies endpoints) of
                  Fulfilled vs \<Rightarrow>
                    s1\<lparr>popularMovies := or_empty (vs ! 0),
                       topRatedMovies := or_empty (vs ! 1),
                       upcomingMovies := or_empty (vs ! 2),
                       nowPlayingMovies := or_empty (vs ! 3),
                       popularTV := or_empty (vs ! 4),
                       topRatedTV := or_empty (vs ! 5),
                       trendingMovies := or_empty (vs ! 6),
                       trendingTV := or_empty (vs ! 7)\<rparr>
                | Rejected \<Rightarrow> s1\<lparr>error := Some load_error\<rparr>)
      in s2\<lparr>isLoading := False\<rparr>)"

text \<open>
  What \<open>App\<close> renders: the loading screen, the error panel (the message and the Retry
  button), or the page. Of the page the model keeps the Featured grid, the eight rows
  and the item handed to the details modal; \<open>vis\<close> says which rows are near the viewport.
  The banner, whose items are drawn with \<open>Math.random\<close>, is left out.
\<close>

datatype view =
  LoadingView
| ErrorPanel string
| MainView (featured: "movie list") (rows: "row_view option list") (modal: "movie option")

definition main_view :: "(nat \<Rightarrow> bool) \<Rightarrow> app \<Rightarrow> view" where
  "main_view vis s =
     MainView (take 6 (popularMovies s))
       [MovieRow ''Popular Right Now'' (Val (popularMovies s)) (Some RowMovie) (vis 0),
        MovieRow ''Top Rated Of All Time'' (Val (topRatedMovies s)) (Some RowMovie) (vis 1),
        MovieRow ''Coming Soon'' (Val (upcomingMovies s)) (Some RowMovie) (vis 2),
        MovieRow ''Now Playing In Theaters'' (Val (nowPlayingMovies s)) (Some RowMovie) (vis 3),
        MovieRow ''Popular This Week'' (Val (popularTV s)) (Some RowTv) (vis 4),
        MovieRow ''All-Time Favorites'' (Val (topRatedTV s)) (Some RowTv) (vis 5),
        MovieRow ''Movies'' (Val (trendingMovies s)) (Some RowMovie) (vis 6),
        MovieRow ''TV Shows'' (Val (trendingTV s)) (Some RowTv) (vis 7)]
       (selectedMovie s)"

definition render :: "(nat \<Rightarrow> bool) \<Rightarrow> app \<Rightarrow> view" where
  "render vis s =
     (if isLoading s then LoadingView
      else (case error s of
              Some e \<Rightarrow> if e \<noteq> [] then ErrorPanel e else main_view vis s
            | None \<Rightarrow> main_view vis s))"

text \<open>
  The part of both click handlers that fetches a series (App.tsx lines 82-101,
  MovieRow.tsx lines 351-370): \<open>None\<close> when an exception is thrown (the request is
  rejected, the status is not ok, the body does not parse or is not an object),
  otherwise the parsed object with its series fields mapped.
\<close>

definition hydrate_tv :: "movie \<Rightarrow> movie" where
  "hydrate_tv d =
     (let d1 = (if truthy_str (name d) \<and> \<not> truthy_str (title d) then d\<lparr>title := name d\<rparr> else d);
          d2 = d1\<lparr>media_type := Val ''tv''\<rparr>
      in case external_ids d2 of
           Val x \<Rightarrow> if truthy_str (ext_imdb_id x) then d2\<lparr>imdb_id := ext_imdb_id x\<rparr> else d2
         | _ \<Rightarrow> d2)"

definition tv_details :: "response promise \<Rightarrow> movie option" where
  "tv_details r =
     (case r of
        Rejected \<Rightarrow> None
      | Fulfilled resp \<Rightarrow>
          if \<not> ok resp then None
          else (case json resp of
                  Fulfilled (Val d) \<Rightarrow> Some (hydrate_tv d)
                | _ \<Rightarrow> None))"

text \<open>
  \<open>handleMovieClick\<close> of \<open>App\<close> (lines 71-116). \<open>app_details\<close> is the body of the \<open>try\<close>
  after its first statement: the hydrated object, or \<open>None\<close> when it throws.
\<close>

definition app_details ::
  "(nat \<Rightarrow> response promise) \<Rightarrow> (nat \<Rightarrow> movie jsval promise) \<Rightarrow> nat \<Rightarrow> string jsval \<Rightarrow> movie option"
where
  "app_details fetch_tv fetchMovieDetails movieId mediaType =
     (let movieDetails =
            (if mediaType = Val ''tv'' then map_option Val (tv_details (fetch_tv movieId))
             else (case fetchMovieDetails movieId of Rejected \<Rightarrow> None | Fulfilled v \<Rightarrow> Some v))
      in case movieDetails of
           Some (Val d) \<Rightarrow> if truthy_num (tmdb_id d) then Some d else None
         | _ \<Rightarrow> None)"

definition handleMovieClick ::
  "(nat \<Rightarrow> response promise) \<Rightarrow> (nat \<Rightarrow> movie jsval promise) \<Rightarrow> nat \<Rightarrow> string jsval \<Rightarrow> app \<Rightarrow> app"
where
  "handleMovieClick fetch_tv fetchMovieDetails movieId mediaType s =
     (let s1 = s\<lparr>selectedMovie := None\<rparr>
      in case app_details fetch_tv fetchMovieDetails movieId mediaType of
           Some d \<Rightarrow> s1\<lparr>selectedMovie := Some d\<rparr>
         | None \<Rightarrow> s1)"

text \<open>
  \<open>handleMovieClick\<close> of \<open>Navbar\<close> (MovieRow.tsx lines 343-393), on a search result.
  The hydration throws, or delivers movie details without an identifier (logged, not
  thrown), or succeeds. Only a throw skips the statements that close the search.
\<close>

datatype hydration = Threw | Incomplete | Hydrated movie

text \<open>The \<open>mediaType\<close> of line 346: \<open>result.media_type || (result.title ? 'movie' : 'tv')\<close>.\<close>

definition result_media_type :: "movie \<Rightarrow> string jsval" where
  "result_media_type result =
     (if truthy_str (media_type result) then media_type result
      else if truthy_str (title result) then Val ''movie'' else Val ''tv'')"

definition nav_details ::
  "(nat jsval \<Rightarrow> response promise) \<Rightarrow> (nat jsval \<Rightarrow> movie jsval promise) \<Rightarrow> movie \<Rightarrow> hydration"
where
  "nav_details fetch_tv fetchMovieDetails result =
     (if result_media_type result = Val ''tv'' then
        (case tv_details (fetch_tv (tmdb_id result)) of
           None \<Rightarrow> Threw
         | Some d \<Rightarrow> Hydrated d)
      else
        (case fetchMovieDetails (tmdb_id result) of
           Rejected \<Rightarrow> Threw
         | Fulfilled (Val d) \<Rightarrow> if truthy_num (tmdb_id d) then Hydrated d else Incomplete
         | Fulfilled _ \<Rightarrow> Incomplete))"

definition close_search :: "nav \<Rightarrow> nav" where
  "close_search s = setSearchQuery [] (s\<lparr>showSearch := False, searchResults := []\<rparr>)"

definition nav_handleMovieClick ::
  "(nat jsval \<Rightarrow> response promise) \<Rightarrow> (nat jsval \<Rightarrow> movie jsval promise) \<Rightarrow> movie \<Rightarrow> nav \<Rightarrow> nav"
where
  "nav_handleMovieClick fetch_tv fetchMovieDetails result s =
     (case nav_details fetch_tv fetchMovieDetails result of
        Threw \<Rightarrow> s
      | Incomplete \<Rightarrow> close_search s
      | Hydrated d \<Rightarrow> close_search (s\<lparr>navSelectedMovie := Some d\<rparr>))"

section \<open>Details modal (src/components/MovieModal.tsx)\<close>

record modal_state =
  showPlayer :: bool
  isTV :: bool
  selectedSeason :: nat
  selectedEpisode :: nat
  totalSeasons :: nat
  episodesPerSeason :: "nat \<rightharpoonup> nat"

definition initial_modal :: modal_state where
  "initial_modal =
     \<lparr>showPlayer = False, isTV = False, selectedSeason = 1, selectedEpisode = 1,
      totalSeasons = 1, episodesPerSeason = Map.empty\<rparr>"

text \<open>The classification of lines 26-29.\<close>

definition isTVShow :: "movie \<Rightarrow> bool" where
  "isTVShow m =
     (number_of_seasons m \<noteq> Undefined \<or> first_air_date m \<noteq> Undefined \<or>
      media_type m = Val ''tv'' \<or> name m \<noteq> Undefined)"

text \<open>\<open>season.episode_count || 10\<close>, and one round of the \<open>forEach\<close> of lines 38-42.\<close>

fun or_num :: "nat jsval \<Rightarrow> nat \<Rightarrow> nat" where
  "or_num (Val n) d = (if n \<noteq> 0 then n else d)"
| "or_num _ d = d"

definition add_season :: "season \<Rightarrow> (nat \<rightharpoonup> nat) \<Rightarrow> (nat \<rightharpoonup> nat)" where
  "add_season se episodeCount =
     (if 0 < season_number se
      then episodeCount(season_number se \<mapsto> or_num (episode_count se) 10)
      else episodeCount)"

definition episode_map :: "season list jsval \<Rightarrow> (nat \<rightharpoonup> nat)" where
  "episode_map sv = (case sv of Val ss \<Rightarrow> fold add_season ss Map.empty | _ \<Rightarrow> Map.empty)"

text \<open>The \<open>useEffect\<close> on \<open>movie\<close> (lines 21-46).\<close>

definition movie_effect :: "movie \<Rightarrow> modal_state \<Rightarrow> modal_state" where
  "movie_effect m s =
     (let s1 = s\<lparr>showPlayer := False, isTV := isTVShow m\<rparr>
      in case number_of_seasons m of
           Val n \<Rightarrow>
             if isTVShow m \<and> n \<noteq> 0
             then s1\<lparr>totalSeasons := n, episodesPerSeason := episode_map (seasons m)\<rparr>
             else s1
         | _ \<Rightarrow> s1)"

text \<open>The two \<open>for\<close> loops that build the options (lines 82-100), from \<open>i\<close> up to \<open>n\<close>.\<close>

function options_from :: "nat \<Rightarrow> nat \<Rightarrow> nat list" where
  "options_from i n = (if i \<le> n then i # options_from (Suc i) n else [])"
  by pat_completeness auto
termination
  by (relation "measure (\<lambda>(i, n). Suc n - i)") auto

declare options_from.simps [simp del]

definition seasonOptions :: "modal_state \<Rightarrow> nat list" where
  "seasonOptions s = options_from 1 (totalSeasons s)"

definition episodeCount :: "modal_state \<Rightarrow> nat" where
  "episodeCount s =
     (case episodesPerSeason s (selectedSeason s) of
        Some c \<Rightarrow> if c \<noteq> 0 then c else 10
      | None \<Rightarrow> 10)"

definition episodeOptions :: "modal_state \<Rightarrow> nat list" where
  "episodeOptions s = options_from 1 (episodeCount s)"

text \<open>The \<open>onChange\<close> handlers of the two selectors, and the Play button without \<open>onPlay\<close>.\<close>

definition onSeasonChange :: "nat \<Rightarrow> modal_state \<Rightarrow> modal_state" where
  "onSeasonChange newSeason s = s\<lparr>selectedSeason := newSeason, selectedEpisode := 1\<rparr>"

definition onEpisodeChange :: "nat \<Rightarrow> modal_state \<Rightarrow> modal_state" where
  "onEpisodeChange newEpisode s = s\<lparr>selectedEpisode := newEpisode\<rparr>"

definition handlePlayClick :: "modal_state \<Rightarrow> modal_state" where
  "handlePlayClick s = s\<lparr>showPlayer := True\<rparr>"


function show_nat :: "nat \<Rightarrow> string" where
  "show_nat n =
     (if n < 10 then [''0123456789'' ! n]
      else show_nat (n div 10) @ [''0123456789'' ! (n mod 10)])"
  by pat_completeness auto
termination
  by (relation "measure id") auto

declare show_nat.simps [simp del]

text \<open>
  \<open>getEmbedUrl\<close> (lines 62-79): the URL and the \<open>console.warn\<close> messages it emits.
  \<open>imdbId\<close> is the constant of line 68, \<open>movie.external_ids?.imdb_id || movie.imdb_id\<close>.
\<close>

definition imdbId :: "movie \<Rightarrow> string jsval" where
  "imdbId m =
     or_str (case external_ids m of Val x \<Rightarrow> ext_imdb_id x | _ \<Rightarrow> Undefined) (imdb_id m)"

definition fallback_warning :: string where
  "fallback_warning = ''No IMDb ID found for TV show, using TMDB ID as fallback''"

definition getEmbedUrl :: "movie \<Rightarrow> modal_state \<Rightarrow> string \<times> string list" where
  "getEmbedUrl m s =
     (case tmdb_id m of
        Val n \<Rightarrow>
          if n = 0 then ([], [])
          else if isTV s then
            (case imdbId m of
               Val x \<Rightarrow>
                 if x \<noteq> [] then
                   (''https://vidsrc.in/embed/tv?imdb='' @ x @ ''&season='' @
                      show_nat (selectedSeason s) @ ''&episode='' @ show_nat (selectedEpisode s), [])
                 else
                   (''https://vidsrc.in/embed/tv?tmdb='' @ show_nat n @ ''&season='' @
                      show_nat (selectedSeason s) @ ''&episode='' @ show_nat (selectedEpisode s),
                    [fallback_warning])
             | _ \<Rightarrow>
                 (''https://vidsrc.in/embed/tv?tmdb='' @ show_nat n @ ''&season='' @
                    show_nat (selectedSeason s) @ ''&episode='' @ show_nat (selectedEpisode s),
                  [fallback_warning]))
          else (''https://vidsrc.in/embed/movie/'' @ show_nat n, [])
      | _ \<Rightarrow> ([], []))"


subsection \<open>Startup\<close>

lemma promise_all_rejected: "Rejected \<in> set ps \<Longrightarrow> promise_all ps = Rejected"
  by (induction ps) (auto split: promise.splits)

lemma promise_all_fulfilled:
  "Rejected \<notin> set ps \<Longrightarrow> \<exists>vs. promise_all ps = Fulfilled vs \<and> map Fulfilled vs = ps"
proof (induction ps)
  case Nil
  then show ?case by simp
next
  case (Cons p ps)
  then obtain vs where vs: "promise_all ps = Fulfilled vs" "map Fulfilled vs = ps" by auto
  from Cons.prems obtain v where "p = Fulfilled v" by (cases p) auto
  with vs show ?case by simp
qed

text \<open>Example: an environment in which one of the eight requests is rejected.\<close>

definition one_fails :: "string \<Rightarrow> movie list jsval promise" where
  "one_fails e =
     (if e = ''/tv/top_rated'' then Rejected
      else Fulfilled (Val [no_fields\<lparr>tmdb_id := Val 1, poster_path := Val ''/p.jpg''\<rparr>]))"

text \<open>
  C5. If any one of the eight category fetches is rejected, \<open>Promise.all\<close> is rejected and
  \<open>fetchData\<close> ends in the error state: no category list is stored (the state differs from
  the one before only in \<open>isLoading\<close> and \<open>error\<close>), and \<open>App\<close> renders the error panel
  alone, with no row of the categories that were fetched. That the eight requests are in
  flight at the same time is not part of the model: a promise is its outcome.
\<close>

theorem startup_all_or_nothing:
  assumes "\<exists>e \<in> set endpoints. fetchMovies e = Rejected"
  shows "error (fetchData fetchMovies s) = Some load_error \<and>
         \<not> isLoading (fetchData fetchMovies s) \<and>
         render vis (fetchData fetchMovies s) = ErrorPanel load_error \<and>
         fetchData fetchMovies s = s\<lparr>isLoading := False, error := Some load_error\<rparr>"
proof -
  from assms have "Rejected \<in> set (map fetchMovies endpoints)" by force
  then have rej: "promise_all (map fetchMovies endpoints) = Rejected"
    by (rule promise_all_rejected)
  have st: "fetchData fetchMovies s = s\<lparr>isLoading := False, error := Some load_error\<rparr>"
    by (simp add: fetchData_def rej)
  have "load_error \<noteq> []" by (simp add: load_error_def)
  then show ?thesis by (simp add: st render_def)
qed

theorem startup_all_or_nothing_witness:
  "render (\<lambda>i. True) (fetchData one_fails initial_app) = ErrorPanel load_error \<and>
   popularMovies (fetchData one_fails initial_app) = [] \<and>
   one_fails ''/movie/popular'' =
     Fulfilled (Val [no_fields\<lparr>tmdb_id := Val 1, poster_path := Val ''/p.jpg''\<rparr>])"
proof -
  have "\<exists>e \<in> set endpoints. one_fails e = Rejected"
    by (simp add: endpoints_def one_fails_def)
  from startup_all_or_nothing [OF this, of initial_app "\<lambda>i. True"]
  have "render (\<lambda>i. True) (fetchData one_fails initial_app) = ErrorPanel load_error"
    and "fetchData one_fails initial_app = initial_app\<lparr>isLoading := False, error := Some load_error\<rparr>"
    by blast+
  moreover have "popularMovies initial_app = []" by (simp add: initial_app_def)
  moreover have "one_fails ''/movie/popular'' =
     Fulfilled (Val [no_fields\<lparr>tmdb_id := Val 1, poster_path := Val ''/p.jpg''\<rparr>])"
    by (simp add: one_fails_def)
  ultimately show ?thesis by simp
qed

subsection \<open>Rows\<close>

text \<open>
  C10. A row given no list, an empty list or a list with no poster path among its items
  renders nothing, the heading included. Otherwise it renders its heading and, once
  visible, exactly one card for each item that has a poster path, in the order of the
  list; an item without a poster path gets no card.
\<close>

theorem row_renders_posters:
  "(MovieRow ttl Undefined rowType vis = None) \<and> (MovieRow ttl Null rowType vis = None) \<and>
   ((\<forall>m \<in> set ms. \<not> truthy_str (poster_path m)) \<longrightarrow> MovieRow ttl (Val ms) rowType vis = None) \<and>
   ((\<exists>m \<in> set ms. truthy_str (poster_path m)) \<longrightarrow>
      (\<exists>v. MovieRow ttl (Val ms) rowType vis = Some v \<and> heading v = ttl \<and>
         (if vis
          then \<exists>cs. cards v = Some cs \<and>
                 map card_movie cs = filter (\<lambda>m. truthy_str (poster_path m)) ms \<and>
                 (\<forall>c \<in> set cs. truthy_str (poster_path (card_movie c)))
          else cards v = None)))"
proof -
  let ?valid = "filter (\<lambda>m. truthy_str (poster_path m)) ms"
  have none: "MovieRow ttl (Val ms) rowType vis = None"
    if "\<forall>m \<in> set ms. \<not> truthy_str (poster_path m)"
  proof -
    from that have "?valid = []" by (simp add: filter_empty_conv)
    then show ?thesis by (simp add: MovieRow_def)
  qed
  have some: "\<exists>v. MovieRow ttl (Val ms) rowType vis = Some v \<and> heading v = ttl \<and>
         (if vis
          then \<exists>cs. cards v = Some cs \<and> map card_movie cs = ?valid \<and>
                 (\<forall>c \<in> set cs. truthy_str (poster_path (card_movie c)))
          else cards v = None)"
    if "\<exists>m \<in> set ms. truthy_str (poster_path m)"
  proof -
    from that have ne: "?valid \<noteq> []" by (simp add: filter_empty_conv)
    then have "ms \<noteq> []" by auto
    with ne show ?thesis by (simp add: MovieRow_def Let_def comp_def)
  qed
  show ?thesis using none some by (simp add: MovieRow_def)
qed


theorem row_renders_posters_witness:
  "MovieRow ''Coming Soon''
     (Val [no_fields\<lparr>tmdb_id := Val 1, poster_path := Val ''/a.jpg''\<rparr>,
           no_fields\<lparr>tmdb_id := Val 2\<rparr>,
           no_fields\<lparr>tmdb_id := Val 3, poster_path := Val ''/c.jpg''\<rparr>])
     (Some RowMovie) True =
   Some \<lparr>heading = ''Coming Soon'',
         cards = Some [Card (no_fields\<lparr>tmdb_id := Val 1, poster_path := Val ''/a.jpg''\<rparr>) ''movie'',
                       Card (no_fields\<lparr>tmdb_id := Val 3, poster_path := Val ''/c.jpg''\<rparr>) ''movie'']\<rparr> \<and>
   MovieRow ''Coming Soon'' (Val [no_fields\<lparr>tmdb_id := Val 2\<rparr>]) (Some RowMovie) True = None \<and>
   MovieRow ''Coming Soon'' (Val []) (Some RowMovie) True = None"
  using row_renders_posters [of "''Coming Soon''" "Some RowMovie" True
      "[no_fields\<lparr>tmdb_id := Val 1, poster_path := Val ''/a.jpg''\<rparr>,
        no_fields\<lparr>tmdb_id := Val 2\<rparr>,
        no_fields\<lparr>tmdb_id := Val 3, poster_path := Val ''/c.jpg''\<rparr>]"]
    row_renders_posters [of "''Coming Soon''" "Some RowMovie" True "[no_fields\<lparr>tmdb_id := Val 2\<rparr>]"]
    row_renders_posters [of "''Coming Soon''" "Some RowMovie" True "[]"]
  by (simp add: MovieRow_def no_fields_def card_media_type_def)

subsection \<open>Clicks whose hydration fails\<close>

text \<open>
  Where the fetch throws (the request is rejected, or the status of the series request
  is not ok) both handlers catch the exception. The handler of the root view has by then
  cleared the selection, which it does before fetching; a click arrives with nothing
  selected whenever the modal, which covers the page, is closed, and then the state is
  left as it was. The handler of the navigation bar leaves its state as it was.
\<close>

lemma app_failed_click:
  assumes "if mediaType = Val ''tv''
           then fetch_tv movieId = Rejected \<or> (\<exists>b. fetch_tv movieId = Fulfilled (Response False b))
           else fetchMovieDetails movieId = Rejected"
  shows "handleMovieClick fetch_tv fetchMovieDetails movieId mediaType s = s\<lparr>selectedMovie := None\<rparr>"
    and "selectedMovie s = None \<Longrightarrow>
         handleMovieClick fetch_tv fetchMovieDetails movieId mediaType s = s"
proof -
  have "app_details fetch_tv fetchMovieDetails movieId mediaType = None"
    using assms by (auto simp add: app_details_def tv_details_def split: if_splits)
  then show "handleMovieClick fetch_tv fetchMovieDetails movieId mediaType s = s\<lparr>selectedMovie := None\<rparr>"
    by (simp add: handleMovieClick_def)
  moreover have "s\<lparr>selectedMovie := None\<rparr> = s" if "selectedMovie s = None"
    using that by (cases s) simp
  ultimately show "selectedMovie s = None \<Longrightarrow>
         handleMovieClick fetch_tv fetchMovieDetails movieId mediaType s = s"
    by simp
qed

lemma nav_failed_click:
  assumes "if result_media_type result = Val ''tv''
           then fetch_tv (tmdb_id result) = Rejected \<or>
                (\<exists>b. fetch_tv (tmdb_id result) = Fulfilled (Response False b))
           else fetchMovieDetails (tmdb_id result) = Rejected"
  shows "nav_handleMovieClick fetch_tv fetchMovieDetails result s = s"
proof -
  have "nav_details fetch_tv fetchMovieDetails result = Threw"
    using assms by (auto simp add: nav_details_def tv_details_def split: if_splits)
  then show ?thesis by (simp add: nav_handleMovieClick_def)
qed

text \<open>Example: a movie as the catalog lists it, and the overlay showing it as a result.\<close>

definition heat :: movie where
  "heat = no_fields\<lparr>tmdb_id := Val 949, title := Val ''Heat''\<rparr>"

definition found_heat :: nav where
  "found_heat =
     search_settles (Some [heat])
       (nav_elapse 500 (onChange (js ''heat'') (initial_nav\<lparr>showSearch := True\<rparr>)))"

text \<open>
  C9. The claim has a click whose detail fetch fails leave no visible change. It does
  not hold for a click on a movie result whose details arrive as \<open>null\<close>, as \<open>undefined\<close>
  or as an object without identifier: the handler of the navigation bar logs the failure
  without throwing, and goes on to the statements after the branch. No item is opened,
  but the overlay is closed and the query and the result list are emptied.
\<close>

theorem incomplete_details_close_search:
  assumes "result_media_type result \<noteq> Val ''tv''"
    and "fetchMovieDetails (tmdb_id result) = Fulfilled v"
    and "v = Null \<or> v = Undefined \<or> (\<exists>d. v = Val d \<and> \<not> truthy_num (tmdb_id d))"
  shows "navSelectedMovie (nav_handleMovieClick fetch_tv fetchMovieDetails result s) =
           navSelectedMovie s \<and>
         \<not> showSearch (nav_handleMovieClick fetch_tv fetchMovieDetails result s) \<and>
         searchQuery (nav_handleMovieClick fetch_tv fetchMovieDetails result s) = [] \<and>
         searchResults (nav_handleMovieClick fetch_tv fetchMovieDetails result s) = []"
proof -
  have "nav_details fetch_tv fetchMovieDetails result = Incomplete"
    using assms by (auto simp add: nav_details_def)
  then have "nav_handleMovieClick fetch_tv fetchMovieDetails result s = close_search s"
    by (simp add: nav_handleMovieClick_def)
  then show ?thesis
    by (simp add: close_search_def setSearchQuery_def)
qed

theorem incomplete_details_close_search_witness:
  "showSearch found_heat \<and> searchQuery found_heat = js ''heat'' \<and>
   searchResults found_heat = [heat] \<and>
   \<not> showSearch (nav_handleMovieClick (\<lambda>i. Rejected) (\<lambda>i. Fulfilled Null) heat found_heat) \<and>
   searchQuery (nav_handleMovieClick (\<lambda>i. Rejected) (\<lambda>i. Fulfilled Null) heat found_heat) = [] \<and>
   searchResults (nav_handleMovieClick (\<lambda>i. Rejected) (\<lambda>i. Fulfilled Null) heat found_heat) = [] \<and>
   navSelectedMovie (nav_handleMovieClick (\<lambda>i. Rejected) (\<lambda>i. Fulfilled Null) heat found_heat) = None"
proof -
  have m: "result_media_type heat \<noteq> Val ''tv''"
    by (simp add: result_media_type_def heat_def no_fields_def)
  have s0: "showSearch found_heat" "searchQuery found_heat = js ''heat''"
    "searchResults found_heat = [heat]" "navSelectedMovie found_heat = None"
    by (simp_all add: found_heat_def search_settles_def nav_elapse_def onChange_def
        setSearchQuery_def search_fires_def initial_nav_def js_def trim_def isWhiteSpace_def)
  from incomplete_details_close_search [OF m, of "\<lambda>i. Fulfilled Null" Null "\<lambda>i. Rejected" found_heat]
  show ?thesis using s0 by simp
qed

section \<open>Properties of the details modal\<close>

lemma options_from_upt: "options_from i n = [i..<Suc n]"
proof (induction i n rule: options_from.induct)
  case (1 i n)
  show ?case
  proof (cases "i \<le> n")
    case True
    with 1 show ?thesis by (simp add: options_from.simps [of i n] upt_conv_Cons)
  next
    case False
    then show ?thesis by (simp add: options_from.simps [of i n])
  qed
qed

lemma fold_add_season:
  "fold add_season ss Map.empty k =
     (if k = 0 then None
      else map_option (\<lambda>se. or_num (episode_count se) 10)
             (find (\<lambda>se. season_number se = k) (rev ss)))"
proof (induction ss arbitrary: k rule: rev_induct)
  case Nil
  then show ?case by simp
next
  case (snoc se ss)
  then show ?case by (simp add: add_season_def)
qed

lemma or_num_pos: "0 < d \<Longrightarrow> 0 < or_num v d"
  by (cases v) auto

lemma episode_map_pos: "episode_map sv k = Some c \<Longrightarrow> 0 < c"
  by (cases sv) (auto simp add: episode_map_def fold_add_season or_num_pos split: if_splits)

text \<open>Example: a series of three seasons with two of them in its seasons list.\<close>

definition dark :: movie where
  "dark = no_fields\<lparr>tmdb_id := Val 70523, name := Val ''Dark'', number_of_seasons := Val 3,
     seasons := Val [\<lparr>season_number = 1, episode_count = Val 8\<rparr>,
                     \<lparr>season_number = 2, episode_count = Val 10\<rparr>]\<rparr>"

text \<open>
  C8 (as the code has it). After the effect has run, the modal treats the item as a
  series exactly when a season count is present, or a first-air date is present, or the
  kind marker is \<open>tv\<close>, or the \<open>name\<close> field is present, whether or not \<open>title\<close> is.
\<close>

theorem classification:
  "isTV (movie_effect m s) =
     (number_of_seasons m \<noteq> Undefined \<or> first_air_date m \<noteq> Undefined \<or>
      media_type m = Val ''tv'' \<or> name m \<noteq> Undefined)"
  by (simp add: movie_effect_def isTVShow_def Let_def split: jsval.splits)

theorem classification_witness:
  "isTV (movie_effect (no_fields\<lparr>tmdb_id := Val 70523, name := Val ''Dark''\<rparr>) initial_modal) \<and>
   \<not> isTV (movie_effect (no_fields\<lparr>tmdb_id := Val 949, title := Val ''Heat''\<rparr>) initial_modal)"
  using classification [of "no_fields\<lparr>tmdb_id := Val 70523, name := Val ''Dark''\<rparr>" initial_modal]
    classification [of "no_fields\<lparr>tmdb_id := Val 949, title := Val ''Heat''\<rparr>" initial_modal]
  by (simp add: no_fields_def)

text \<open>
  The claim as the spec states it needs \<open>title\<close> to be absent for the \<open>name\<close> field to count.
  An item with both fields and none of the other marks is a series for the code.
\<close>

theorem classification_counterexample:
  "isTV (movie_effect (no_fields\<lparr>tmdb_id := Val 7, title := Val ''Fargo'', name := Val ''Fargo''\<rparr>)
      initial_modal) \<and>
   number_of_seasons (no_fields\<lparr>tmdb_id := Val 7, title := Val ''Fargo'', name := Val ''Fargo''\<rparr>) = Undefined \<and>
   first_air_date (no_fields\<lparr>tmdb_id := Val 7, title := Val ''Fargo'', name := Val ''Fargo''\<rparr>) = Undefined \<and>
   media_type (no_fields\<lparr>tmdb_id := Val 7, title := Val ''Fargo'', name := Val ''Fargo''\<rparr>) = Undefined \<and>
   title (no_fields\<lparr>tmdb_id := Val 7, title := Val ''Fargo'', name := Val ''Fargo''\<rparr>) = Val ''Fargo''"
  by (simp add: movie_effect_def isTVShow_def no_fields_def)



text \<open>
  What the two click handlers hand to the modal: from the root view an object with a
  non-zero identifier, and from either handler, on the series path, an object that went
  through the series hydration.
\<close>

lemma app_details_hydrated:
  assumes "app_details fetch_tv fetchMovieDetails movieId mediaType = Some m"
  shows "truthy_num (tmdb_id m)"
    and "mediaType = Val ''tv'' \<Longrightarrow> \<exists>d. m = hydrate_tv d"
  using assms
  by (auto simp add: app_details_def tv_details_def
      split: if_splits option.splits jsval.splits promise.splits)

lemma nav_details_hydrated:
  assumes "nav_details fetch_tv fetchMovieDetails result = Hydrated m"
  shows "result_media_type result = Val ''tv'' \<Longrightarrow> \<exists>d. m = hydrate_tv d"
    and "result_media_type result \<noteq> Val ''tv'' \<Longrightarrow> truthy_num (tmdb_id m)"
  using assms
  by (auto simp add: nav_details_def tv_details_def
      split: if_splits option.splits jsval.splits promise.splits)



text \<open>
  The modal by itself looks at the nested identifier first: on an object that did not
  go through the hydration and carries two different identifiers the URL has the nested
  one.
\<close>

lemma nested_id_first:
  "imdb_id (dark\<lparr>imdb_id := Val ''tt0000001'', external_ids := Val (ExternalIds (Val ''tt5753856''))\<rparr>) =
     Val ''tt0000001'' \<and>
   getEmbedUrl (dark\<lparr>imdb_id := Val ''tt0000001'', external_ids := Val (ExternalIds (Val ''tt5753856''))\<rparr>)
     (movie_effect
        (dark\<lparr>imdb_id := Val ''tt0000001'', external_ids := Val (ExternalIds (Val ''tt5753856''))\<rparr>)
        initial_modal) =
     (''https://vidsrc.in/embed/tv?imdb=tt5753856&season=1&episode=1'', [])"
  by (simp add: dark_def no_fields_def movie_effect_def isTVShow_def imdbId_def or_str_def
      initial_modal_def getEmbedUrl_def show_nat.simps)

text \<open>
  C7 (as the code has it). For a series item shown by a freshly mounted modal: the season
  options are \<open>1..totalSeasons\<close>, one season when the count is absent or zero; the episode
  options of a selected season \<open>k\<close> are \<open>1..c\<close> when the per-season map has \<open>c\<close> for \<open>k\<close>,
  and \<open>1..10\<close> when it has no entry; selecting a season sets the episode to 1. The map
  is built only when the season count is present and not zero, and is empty otherwise;
  built from a list, it has no entry for season 0, and for \<open>k > 0\<close> the episode count of
  the last entry of the list for season \<open>k\<close>, or 10 when that count is absent or zero.
\<close>

theorem season_episode_options:
  assumes "isTVShow m"
  shows "seasonOptions (movie_effect m initial_modal) = [1..<Suc (or_num (number_of_seasons m) 1)] \<and>
         episodesPerSeason (movie_effect m initial_modal) =
           (if truthy_num (number_of_seasons m) then episode_map (seasons m) else Map.empty) \<and>
         (\<forall>k. episodeOptions (onSeasonChange k (movie_effect m initial_modal)) =
                [1..<Suc (case episodesPerSeason (movie_effect m initial_modal) k of
                            Some c \<Rightarrow> c | None \<Rightarrow> 10)]) \<and>
         (\<forall>k t. selectedSeason (onSeasonChange k t) = k \<and> selectedEpisode (onSeasonChange k t) = 1) \<and>
         (\<forall>ss k. seasons m = Val ss \<longrightarrow>
            episode_map (seasons m) k =
              (if k = 0 then None
               else map_option (\<lambda>se. or_num (episode_count se) 10)
                      (find (\<lambda>se. season_number se = k) (rev ss)))) \<and>
         ((seasons m = Undefined \<or> seasons m = Null) \<longrightarrow> episode_map (seasons m) = Map.empty)"
proof -
  let ?s = "movie_effect m initial_modal"
  have total: "totalSeasons ?s = or_num (number_of_seasons m) 1"
    using assms by (simp add: movie_effect_def initial_modal_def Let_def split: jsval.splits)
  have eps: "episodesPerSeason ?s =
      (if truthy_num (number_of_seasons m) then episode_map (seasons m) else Map.empty)"
    using assms by (simp add: movie_effect_def initial_modal_def Let_def split: jsval.splits)
  have pos: "0 < c" if "episodesPerSeason ?s k = Some c" for k c
    using that episode_map_pos [of "seasons m" k c] by (simp add: eps split: if_splits)
  have count: "episodeCount (onSeasonChange k ?s) =
      (case episodesPerSeason ?s k of Some c \<Rightarrow> c | None \<Rightarrow> 10)" for k
    using pos [of k] by (auto simp add: episodeCount_def onSeasonChange_def split: option.splits)
  have "seasonOptions ?s = [1..<Suc (or_num (number_of_seasons m) 1)]"
    by (simp add: seasonOptions_def options_from_upt total)
  moreover have "\<forall>k. episodeOptions (onSeasonChange k ?s) =
      [1..<Suc (case episodesPerSeason ?s k of Some c \<Rightarrow> c | None \<Rightarrow> 10)]"
    by (simp add: episodeOptions_def options_from_upt count)
  moreover have "\<forall>k t. selectedSeason (onSeasonChange k t) = k \<and> selectedEpisode (onSeasonChange k t) = 1"
    by (simp add: onSeasonChange_def)
  moreover have "\<forall>ss k. seasons m = Val ss \<longrightarrow>
            episode_map (seasons m) k =
              (if k = 0 then None
               else map_option (\<lambda>se. or_num (episode_count se) 10)
                      (find (\<lambda>se. season_number se = k) (rev ss)))"
    by (simp add: episode_map_def fold_add_season)
  moreover have "(seasons m = Undefined \<or> seasons m = Null) \<longrightarrow> episode_map (seasons m) = Map.empty"
    by (auto simp add: episode_map_def)
  ultimately show ?thesis using eps by blast
qed

theorem season_episode_options_witness:
  "seasonOptions (movie_effect dark initial_modal) = [1, 2, 3] \<and>
   episodeOptions (onSeasonChange 1 (movie_effect dark initial_modal)) = [1, 2, 3, 4, 5, 6, 7, 8] \<and>
   episodeOptions (onSeasonChange 2 (movie_effect dark initial_modal)) =
     [1, 2, 3, 4, 5, 6, 7, 8, 9, 10] \<and>
   episodeOptions (onSeasonChange 3 (movie_effect dark initial_modal)) =
     [1, 2, 3, 4, 5, 6, 7, 8, 9, 10] \<and>
   selectedEpisode (onSeasonChange 2 (onEpisodeChange 5 (movie_effect dark initial_modal))) = 1"
proof -
  have tv: "isTVShow dark" by (simp add: isTVShow_def dark_def no_fields_def)
  have f: "number_of_seasons dark = Val 3"
    "seasons dark = Val [\<lparr>season_number = 1, episode_count = Val 8\<rparr>,
                         \<lparr>season_number = 2, episode_count = Val 10\<rparr>]"
    by (simp_all add: dark_def no_fields_def)
  from season_episode_options [OF tv] show ?thesis
    by (simp add: f upt_rec)
qed

text \<open>
  The claim as the spec states it takes the episode count from the seasons list for
  every series item. A series with a seasons list and no season count gets no map, so
  ten episodes are offered where the list says eight; and a season whose listed episode
  count is 0 is offered ten episodes although the list has an entry for it.
\<close>

theorem season_episode_options_counterexample:
  "isTVShow (no_fields\<lparr>tmdb_id := Val 5, first_air_date := Val ''2020-01-01'',
      seasons := Val [\<lparr>season_number = 1, episode_count = Val 8\<rparr>]\<rparr>) \<and>
   selectedSeason (movie_effect (no_fields\<lparr>tmdb_id := Val 5, first_air_date := Val ''2020-01-01'',
      seasons := Val [\<lparr>season_number = 1, episode_count = Val 8\<rparr>]\<rparr>) initial_modal) = 1 \<and>
   episodeOptions (movie_effect (no_fields\<lparr>tmdb_id := Val 5, first_air_date := Val ''2020-01-01'',
      seasons := Val [\<lparr>season_number = 1, episode_count = Val 8\<rparr>]\<rparr>) initial_modal) =
     [1, 2, 3, 4, 5, 6, 7, 8, 9, 10] \<and>
   isTVShow (dark\<lparr>seasons := Val [\<lparr>season_number = 1, episode_count = Val 8\<rparr>,
                                    \<lparr>season_number = 2, episode_count = Val 0\<rparr>]\<rparr>) \<and>
   episodeOptions (onSeasonChange 2
     (movie_effect (dark\<lparr>seasons := Val [\<lparr>season_number = 1, episode_count = Val 8\<rparr>,
                                          \<lparr>season_number = 2, episode_count = Val 0\<rparr>]\<rparr>) initial_modal)) =
     [1, 2, 3, 4, 5, 6, 7, 8, 9, 10]"
  by (simp add: dark_def no_fields_def isTVShow_def movie_effect_def initial_modal_def
      episode_map_def add_season_def episodeOptions_def episodeCount_def onSeasonChange_def
      options_from_upt upt_rec)


end
